theory Spec2Isabelle
  imports Main "HOL-Library.Word"
begin

section \<open>The pixp container format: encoder and decoder of PixpEncoder.js\<close>

text \<open>
  A shallow embedding of \<^verbatim>\<open>src/PixpEncoder.js\<close>: the class \<^verbatim>\<open>PixpEncoder\<close>
  (\<^verbatim>\<open>addBlock\<close>, \<^verbatim>\<open>setStudyMetadata\<close>, \<^verbatim>\<open>blocksToBlob\<close> and its private helpers) and
  the class \<^verbatim>\<open>PixpDecoder\<close> (\<^verbatim>\<open>blobToBlocks\<close>).

  Conventions of the embedding:
  \<^item> an \<^verbatim>\<open>ArrayBuffer\<close> is the list of its bytes; a \<^verbatim>\<open>Uint16Array\<close> is the list of its
    16-bit elements; a JavaScript string is the list of its UTF-16 code units;
  \<^item> typed arrays lay their elements out in the byte order of the platform, taken to be
    little-endian (as on every mainstream engine);
  \<^item> JavaScript numbers that count bytes are natural numbers (all sums stay far below
    \<open>2 ^ 53\<close>, where the arithmetic of doubles is exact);
  \<^item> a thrown exception and an early \<^verbatim>\<open>return;\<close> after \<^verbatim>\<open>console.warn\<close> are values of
    the type \<open>error\<close>; the console output itself is not modelled;
  \<^item> the encoder keeps references to the buffers it is given; they are taken not to be
    written to between \<^verbatim>\<open>addBlock\<close> and \<^verbatim>\<open>blocksToBlob\<close>.
\<close>

subsection \<open>Bytes, code units and JavaScript values\<close>

type_synonym byte = "8 word"
type_synonym uint16 = "16 word"
type_synonym jsstring = "uint16 list"

text \<open>A string literal of the source, as code units.\<close>

definition str :: "string \<Rightarrow> jsstring" where
  "str s = map (\<lambda>c. of_char c) s"

text \<open>
  \<open>ConsistencyError\<close> is the early return of \<^verbatim>\<open>blocksToBlob\<close> at lines 90-93 and
  \<open>SerializationError\<close> the early return at lines 118-121 (both return \<^verbatim>\<open>undefined\<close>
  after a warning). \<open>TypeError\<close> and \<open>RangeError\<close> are the exceptions of the same name,
  thrown by the engine and not caught by the source.
\<close>

datatype error = ConsistencyError | SerializationError | TypeError | RangeError

text \<open>
  The values handed to \<^verbatim>\<open>JSON.stringify\<close>. \<open>JSNumber\<close> holds an integer-valued number
  of magnitude below \<open>10 ^ 21\<close>, which is printed in decimal digits without exponent
  (all byte counts and offsets of the encoder are of this kind). The properties of a \<open>JSObject\<close> are listed in the order in which the engine enumerates
  them, with distinct keys. \<open>JSCyclic\<close> stands for an object whose graph holds a
  reference cycle: no finite tree describes it, and \<^verbatim>\<open>JSON.stringify\<close> throws on it.
\<close>

datatype jsvalue =
    JSUndefined
  | JSNull
  | JSBoolean bool
  | JSNumber int
  | JSString jsstring
  | JSArray "jsvalue list"
  | JSObject "(jsstring \<times> jsvalue) list"
  | JSCyclic

subsection \<open>The engine's \<^verbatim>\<open>JSON.stringify\<close>\<close>

definition digit :: "nat \<Rightarrow> uint16" where
  "digit d = of_nat (48 + d)"

fun decimal :: "nat \<Rightarrow> jsstring" where
  "decimal n = (if n < 10 then [digit n] else decimal (n div 10) @ [digit (n mod 10)])"

declare decimal.simps [simp del]

definition number_text :: "int \<Rightarrow> jsstring" where
  "number_text n = (if n < 0 then str ''-'' @ decimal (nat (- n)) else decimal (nat n))"

definition hex_digit :: "nat \<Rightarrow> uint16" where
  "hex_digit d = (if d < 10 then of_nat (48 + d) else of_nat (87 + d))"

text \<open>The escape \<^verbatim>\<open>\uXXXX\<close> with lower-case hexadecimal digits.\<close>

definition unicode_escape :: "uint16 \<Rightarrow> jsstring" where
  "unicode_escape c =
     [0x5C, 0x75] @ map hex_digit
       [unat c div 4096 mod 16, unat c div 256 mod 16, unat c div 16 mod 16, unat c mod 16]"

definition is_leading_surrogate :: "uint16 \<Rightarrow> bool" where
  "is_leading_surrogate c = (0xD800 \<le> c \<and> c \<le> 0xDBFF)"

definition is_trailing_surrogate :: "uint16 \<Rightarrow> bool" where
  "is_trailing_surrogate c = (0xDC00 \<le> c \<and> c \<le> 0xDFFF)"

text \<open>
  QuoteJSONString of ECMAScript 2019: the short escapes, \<^verbatim>\<open>\u00XX\<close> for the other
  control characters and for surrogates that are not part of a pair.
\<close>

fun quote_units :: "jsstring \<Rightarrow> jsstring" where
  "quote_units [] = []"
| "quote_units (c # cs) =
     (if c = 0x08 then [0x5C, 0x62] @ quote_units cs
      else if c = 0x09 then [0x5C, 0x74] @ quote_units cs
      else if c = 0x0A then [0x5C, 0x6E] @ quote_units cs
      else if c = 0x0C then [0x5C, 0x66] @ quote_units cs
      else if c = 0x0D then [0x5C, 0x72] @ quote_units cs
      else if c = 0x22 then [0x5C, 0x22] @ quote_units cs
      else if c = 0x5C then [0x5C, 0x5C] @ quote_units cs
      else if c < 0x20 then unicode_escape c @ quote_units cs
      else if is_leading_surrogate c then
        (case cs of
           [] \<Rightarrow> unicode_escape c
         | d # ds \<Rightarrow>
             if is_trailing_surrogate d then c # d # quote_units ds
             else unicode_escape c @ quote_units cs)
      else if is_trailing_surrogate c then unicode_escape c @ quote_units cs
      else c # quote_units cs)"

definition quote :: "jsstring \<Rightarrow> jsstring" where
  "quote s = [0x22] @ quote_units s @ [0x22]"

fun join_comma :: "jsstring list \<Rightarrow> jsstring" where
  "join_comma [] = []"
| "join_comma [t] = t"
| "join_comma (t # ts) = t @ [0x2C] @ join_comma ts"

text \<open>
  \<open>stringify v\<close> is \<open>Inl TypeError\<close> when \<^verbatim>\<open>JSON.stringify\<close> throws, \<open>Inr None\<close> when it
  returns \<^verbatim>\<open>undefined\<close> and \<open>Inr (Some text)\<close> otherwise. An \<^verbatim>\<open>undefined\<close> element of an
  array is written \<^verbatim>\<open>null\<close>; a property whose value is \<^verbatim>\<open>undefined\<close> is left out.
\<close>

fun stringify :: "jsvalue \<Rightarrow> error + jsstring option"
  and stringify_elements :: "jsvalue list \<Rightarrow> error + jsstring list"
  and stringify_properties :: "(jsstring \<times> jsvalue) list \<Rightarrow> error + jsstring list"
where
  "stringify JSUndefined = Inr None"
| "stringify JSNull = Inr (Some (str ''null''))"
| "stringify (JSBoolean b) = Inr (Some (if b then str ''true'' else str ''false''))"
| "stringify (JSNumber n) = Inr (Some (number_text n))"
| "stringify (JSString s) = Inr (Some (quote s))"
| "stringify (JSArray vs) =
     (case stringify_elements vs of
        Inl e \<Rightarrow> Inl e
      | Inr ts \<Rightarrow> Inr (Some ([0x5B] @ join_comma ts @ [0x5D])))"
| "stringify (JSObject ps) =
     (case stringify_properties ps of
        Inl e \<Rightarrow> Inl e
      | Inr ts \<Rightarrow> Inr (Some ([0x7B] @ join_comma ts @ [0x7D])))"
| "stringify JSCyclic = Inl TypeError"
| "stringify_elements [] = Inr []"
| "stringify_elements (v # vs) =
     (case stringify v of
        Inl e \<Rightarrow> Inl e
      | Inr t \<Rightarrow>
          (case stringify_elements vs of
             Inl e \<Rightarrow> Inl e
           | Inr ts \<Rightarrow> Inr ((case t of None \<Rightarrow> str ''null'' | Some s \<Rightarrow> s) # ts)))"
| "stringify_properties [] = Inr []"
| "stringify_properties ((k, v) # ps) =
     (case stringify v of
        Inl e \<Rightarrow> Inl e
      | Inr t \<Rightarrow>
          (case stringify_properties ps of
             Inl e \<Rightarrow> Inl e
           | Inr ts \<Rightarrow>
               Inr ((case t of None \<Rightarrow> [] | Some s \<Rightarrow> [quote k @ [0x3A] @ s]) @ ts)))"

subsection \<open>The Unicode-JSON codec of the encoder\<close>

text \<open>
  \<^verbatim>\<open>_toJsonString\<close> (lines 183-192): the exception of \<^verbatim>\<open>JSON.stringify\<close> is caught and
  \<^verbatim>\<open>null\<close> returned. \<open>None\<close> is \<^verbatim>\<open>null\<close> or \<^verbatim>\<open>undefined\<close>, which the one caller
  does not tell apart.
\<close>

definition toJsonString :: "jsvalue \<Rightarrow> jsstring option" where
  "toJsonString obj = (case stringify obj of Inl e \<Rightarrow> None | Inr jsonStr \<Rightarrow> jsonStr)"

text \<open>
  \<^verbatim>\<open>_stringToUnicodeBuffer\<close> (lines 165-174): \<^verbatim>\<open>!str\<close> holds for \<^verbatim>\<open>null\<close>,
  \<^verbatim>\<open>undefined\<close> and the empty string; otherwise element \<open>i\<close> of the new
  \<^verbatim>\<open>Uint16Array\<close> is \<^verbatim>\<open>str.charCodeAt(i)\<close>.
\<close>

definition stringToUnicodeBuffer :: "jsstring option \<Rightarrow> uint16 list option" where
  "stringToUnicodeBuffer s =
     (case s of
        None \<Rightarrow> None
      | Some t \<Rightarrow> if t = [] then None else Some (map (\<lambda>i. t ! i) [0 ..< length t]))"

text \<open>\<^verbatim>\<open>_objectToUnicodeBuffer\<close> (lines 152-157).\<close>

definition objectToUnicodeBuffer :: "jsvalue \<Rightarrow> uint16 list option" where
  "objectToUnicodeBuffer obj = stringToUnicodeBuffer (toJsonString obj)"

text \<open>The bytes of a \<^verbatim>\<open>Uint16Array\<close> and of \<^verbatim>\<open>new Uint32Array([n])\<close>, little-endian.\<close>

definition uint16_bytes :: "uint16 \<Rightarrow> byte list" where
  "uint16_bytes u = [ucast u, ucast (drop_bit 8 u)]"

definition Uint16Array_bytes :: "uint16 list \<Rightarrow> byte list" where
  "Uint16Array_bytes us = concat (map uint16_bytes us)"

definition Uint32Array_bytes :: "nat \<Rightarrow> byte list" where
  "Uint32Array_bytes n =
     (let w = (of_nat n :: 32 word)
      in [ucast w, ucast (drop_bit 8 w), ucast (drop_bit 16 w), ucast (drop_bit 24 w)])"

text \<open>
  The property access \<^verbatim>\<open>.buffer\<close> on the result of \<^verbatim>\<open>_objectToUnicodeBuffer\<close>: reading
  a property of \<^verbatim>\<open>null\<close> throws a \<^verbatim>\<open>TypeError\<close>.
\<close>

definition buffer_of :: "uint16 list option \<Rightarrow> error + byte list" where
  "buffer_of b = (case b of None \<Rightarrow> Inl TypeError | Some us \<Rightarrow> Inr (Uint16Array_bytes us))"

subsection \<open>Typed arrays and the classifier\<close>

datatype arrayKind =
    Int8Array | Uint8Array | Uint8ClampedArray
  | Int16Array | Uint16Array
  | Int32Array | Uint32Array
  | Float32Array | Float64Array

text \<open>
  A typed array is a view on an \<^verbatim>\<open>ArrayBuffer\<close>: \<open>buffer\<close> is the whole underlying
  buffer, \<open>byteOffset\<close> and \<open>elements\<close> delimit the view. The encoder reads
  \<^verbatim>\<open>data.buffer\<close> only.
\<close>

record typedArray =
  kind :: arrayKind
  buffer :: "byte list"
  byteOffset :: nat
  elements :: nat

text \<open>The first argument of \<^verbatim>\<open>addBlock\<close>: a typed array or any other value.\<close>

datatype data = TypedArray typedArray | Value jsvalue

text \<open>The engine's constant \<^verbatim>\<open>BYTES_PER_ELEMENT\<close> of each typed-array class.\<close>

fun BYTES_PER_ELEMENT :: "arrayKind \<Rightarrow> nat" where
  "BYTES_PER_ELEMENT Int8Array = 1"
| "BYTES_PER_ELEMENT Uint8Array = 1"
| "BYTES_PER_ELEMENT Uint8ClampedArray = 1"
| "BYTES_PER_ELEMENT Int16Array = 2"
| "BYTES_PER_ELEMENT Uint16Array = 2"
| "BYTES_PER_ELEMENT Int32Array = 4"
| "BYTES_PER_ELEMENT Uint32Array = 4"
| "BYTES_PER_ELEMENT Float32Array = 4"
| "BYTES_PER_ELEMENT Float64Array = 8"

text \<open>
  \<^verbatim>\<open>_isTypedArray\<close> (lines 201-215). A value that is not a typed array fails the guard
  \<^verbatim>\<open>!obj\<close> or every \<^verbatim>\<open>instanceof\<close> test; a typed array is an object, hence truthy, and is
  an instance of its own class.
\<close>

definition isTypedArray :: "data \<Rightarrow> bool" where
  "isTypedArray obj =
     (case obj of
        Value v \<Rightarrow> False
      | TypedArray arr \<Rightarrow>
          kind arr = Int8Array \<or> kind arr = Uint8Array \<or> kind arr = Uint8ClampedArray \<or>
          kind arr = Int16Array \<or> kind arr = Uint16Array \<or>
          kind arr = Int32Array \<or> kind arr = Uint32Array \<or>
          kind arr = Float32Array \<or> kind arr = Float64Array)"

record typedArraySpec =
  spec_bytesPerElement :: nat
  spec_dataType :: string
  spec_signed :: bool

text \<open>
  \<^verbatim>\<open>_getTypedArraySpec\<close> (lines 224-262), branch by branch. The initial \<^verbatim>\<open>null\<close> of
  \<^verbatim>\<open>dataType\<close> and \<^verbatim>\<open>signed\<close> is overwritten in each of the nine branches.
\<close>

definition getTypedArraySpec :: "typedArray \<Rightarrow> typedArraySpec" where
  "getTypedArraySpec arr =
     (let bpe = BYTES_PER_ELEMENT (kind arr)
      in if kind arr = Int8Array then
           \<lparr>spec_bytesPerElement = bpe, spec_dataType = ''int'', spec_signed = False\<rparr>
         else if kind arr = Uint8Array then
           \<lparr>spec_bytesPerElement = bpe, spec_dataType = ''int'', spec_signed = True\<rparr>
         else if kind arr = Uint8ClampedArray then
           \<lparr>spec_bytesPerElement = bpe, spec_dataType = ''int'', spec_signed = True\<rparr>
         else if kind arr = Int16Array then
           \<lparr>spec_bytesPerElement = bpe, spec_dataType = ''int'', spec_signed = False\<rparr>
         else if kind arr = Uint16Array then
           \<lparr>spec_bytesPerElement = bpe, spec_dataType = ''int'', spec_signed = True\<rparr>
         else if kind arr = Int32Array then
           \<lparr>spec_bytesPerElement = bpe, spec_dataType = ''int'', spec_signed = False\<rparr>
         else if kind arr = Uint32Array then
           \<lparr>spec_bytesPerElement = bpe, spec_dataType = ''int'', spec_signed = True\<rparr>
         else if kind arr = Float32Array then
           \<lparr>spec_bytesPerElement = bpe, spec_dataType = ''float'', spec_signed = False\<rparr>
         else
           \<lparr>spec_bytesPerElement = bpe, spec_dataType = ''float'', spec_signed = False\<rparr>)"

subsection \<open>The encoder\<close>

text \<open>
  The object \<^verbatim>\<open>encoding\<close> of \<^verbatim>\<open>addBlock\<close>. \<open>encoding_object\<close> lists its properties in
  the order in which the source creates them (lines 49, 57-59 or 65-67, 70).
\<close>

record encoding =
  originalType :: jsvalue
  bytesPerElement :: nat
  dataType :: string
  signed_flag :: bool
  byteLength :: nat

definition encoding_object :: "encoding \<Rightarrow> jsvalue" where
  "encoding_object e =
     JSObject
       [(str ''originalType'', originalType e),
        (str ''bytesPerElement'', JSNumber (int (bytesPerElement e))),
        (str ''dataType'', JSString (str (dataType e))),
        (str ''signed'', JSBoolean (signed_flag e)),
        (str ''byteLength'', JSNumber (int (byteLength e)))]"

text \<open>The fields of the class (lines 33-38).\<close>

record encoder =
  sidecarBuffers :: "byte list list"
  dataBuffers :: "byte list list"
  studyMetadata :: jsvalue

definition PixpEncoder :: encoder where
  "PixpEncoder = \<lparr>sidecarBuffers = [], dataBuffers = [], studyMetadata = JSObject []\<rparr>"

text \<open>
  Lines 48-70 of \<^verbatim>\<open>addBlock\<close>: the encoding descriptor and the data buffer. The default
  value \<^verbatim>\<open>null\<close> of \<^verbatim>\<open>originalType\<close> replaces an argument that is \<^verbatim>\<open>undefined\<close>.
  The test \<^verbatim>\<open>_isTypedArray(data)\<close> selects the branch; in the first branch a value other
  than a typed array has no \<^verbatim>\<open>buffer\<close>, so that line 70 would throw, and neither that
  case nor a typed array in the second branch arises, by \<open>isTypedArray\<close>.
\<close>

definition addBlock_encoding :: "data \<Rightarrow> jsvalue \<Rightarrow> error + (encoding \<times> byte list)" where
  "addBlock_encoding d originalType_arg =
     (let ot = (if originalType_arg = JSUndefined then JSNull else originalType_arg)
      in if isTypedArray d then
           (case d of
              TypedArray arr \<Rightarrow>
                (let spec = getTypedArraySpec arr;
                     dataBuffer = buffer arr
                 in Inr (\<lparr>originalType = ot,
                           bytesPerElement = spec_bytesPerElement spec,
                           dataType = spec_dataType spec,
                           signed_flag = spec_signed spec,
                           byteLength = length dataBuffer\<rparr>, dataBuffer))
            | Value v \<Rightarrow> Inl TypeError)
         else
           (case d of
              Value v \<Rightarrow>
                (case buffer_of (objectToUnicodeBuffer v) of
                   Inl e \<Rightarrow> Inl e
                 | Inr dataBuffer \<Rightarrow>
                     Inr (\<lparr>originalType = ot,
                           bytesPerElement = 2,
                           dataType = ''json'',
                           signed_flag = False,
                           byteLength = length dataBuffer\<rparr>, dataBuffer))
            | TypedArray arr \<Rightarrow> Inl TypeError))"

text \<open>
  \<^verbatim>\<open>addBlock\<close> (lines 47-81). The result pairs the outcome of the call with the state of
  the encoder after it; the two \<^verbatim>\<open>push\<close> calls are the last statements.
\<close>

definition addBlock :: "data \<Rightarrow> jsvalue \<Rightarrow> jsvalue \<Rightarrow> encoder \<Rightarrow> (error + unit) \<times> encoder" where
  "addBlock d metadata originalType_arg enc =
     (case addBlock_encoding d originalType_arg of
        Inl e \<Rightarrow> (Inl e, enc)
      | Inr (enc_md, dataBuffer) \<Rightarrow>
          (let sidecar = JSObject [(str ''encodingMetadata'', encoding_object enc_md),
                                   (str ''originalMetadata'', metadata)]
           in case buffer_of (objectToUnicodeBuffer sidecar) of
                Inl e \<Rightarrow> (Inl e, enc)
              | Inr sidecarBuffer \<Rightarrow>
                  (let enc1 = enc\<lparr>sidecarBuffers := sidecarBuffers enc @ [sidecarBuffer]\<rparr>;
                       enc2 = enc1\<lparr>dataBuffers := dataBuffers enc1 @ [dataBuffer]\<rparr>
                   in (Inr (), enc2))))"

text \<open>\<^verbatim>\<open>setStudyMetadata\<close> (lines 84-86).\<close>

definition setStudyMetadata :: "jsvalue \<Rightarrow> encoder \<Rightarrow> encoder" where
  "setStudyMetadata obj enc = enc\<lparr>studyMetadata := obj\<rparr>"

text \<open>
  A caller adding blocks one after the other, each given as (data, metadata,
  originalType); an exception thrown by one call ends the sequence.
\<close>

fun addBlocks :: "(data \<times> jsvalue \<times> jsvalue) list \<Rightarrow> encoder \<Rightarrow> (error + unit) \<times> encoder" where
  "addBlocks [] enc = (Inr (), enc)"
| "addBlocks ((d, metadata, ot) # rest) enc =
     (case addBlock d metadata ot enc of
        (Inl e, enc') \<Rightarrow> (Inl e, enc')
      | (Inr u, enc') \<Rightarrow> addBlocks rest enc')"

subsection \<open>Building the blob\<close>

text \<open>
  The loop of lines 99-107. Reading \<^verbatim>\<open>_sidecarBuffers[i]\<close> past the end gives
  \<^verbatim>\<open>undefined\<close>, whose \<^verbatim>\<open>byteLength\<close> cannot be read.
\<close>

function blockStarts_loop :: "encoder \<Rightarrow> nat \<Rightarrow> nat list \<Rightarrow> nat \<Rightarrow> error + (nat list \<times> nat)" where
  "blockStarts_loop enc i blockStarts bufferPosition =
     (if i < length (dataBuffers enc) then
        (if i < length (sidecarBuffers enc) then
           blockStarts_loop enc (i + 1) (blockStarts @ [bufferPosition])
             (bufferPosition
                + (length (sidecarBuffers enc ! i) + length (dataBuffers enc ! i)) + 4)
         else Inl TypeError)
      else Inr (blockStarts, bufferPosition))"
  by pat_completeness auto
termination
  by (relation "measure (\<lambda>(enc, i, blockStarts, bufferPosition). length (dataBuffers enc) - i)")
    auto

declare blockStarts_loop.simps [simp del]

text \<open>The loop of lines 132-141, which appends three parts per block.\<close>

function blobArray_loop :: "encoder \<Rightarrow> nat \<Rightarrow> byte list list \<Rightarrow> error + byte list list" where
  "blobArray_loop enc i blobArray =
     (if i < length (dataBuffers enc) then
        (if i < length (sidecarBuffers enc) then
           blobArray_loop enc (i + 1)
             (blobArray
                @ [Uint32Array_bytes (length (sidecarBuffers enc ! i))]
                @ [sidecarBuffers enc ! i]
                @ [dataBuffers enc ! i])
         else Inl TypeError)
      else Inr blobArray)"
  by pat_completeness auto
termination
  by (relation "measure (\<lambda>(enc, i, blobArray). length (dataBuffers enc) - i)") auto

declare blobArray_loop.simps [simp del]

text \<open>A \<^verbatim>\<open>Blob\<close>: the concatenation of its parts, and its media type.\<close>

record blob =
  blob_bytes :: "byte list"
  blob_type :: string

definition Blob :: "byte list list \<Rightarrow> string \<Rightarrow> blob" where
  "Blob blobArray t = \<lparr>blob_bytes = concat blobArray, blob_type = t\<rparr>"

text \<open>
  The operator \<^verbatim>\<open>!\<close> on an \<^verbatim>\<open>ArrayBuffer\<close> (line 118): every object is truthy, an empty
  buffer too.
\<close>

definition not_ArrayBuffer :: "byte list \<Rightarrow> bool" where
  "not_ArrayBuffer b = False"

text \<open>The object \<^verbatim>\<open>studySidecar\<close> of lines 109-112.\<close>

definition studySidecar_object :: "nat list \<Rightarrow> jsvalue \<Rightarrow> jsvalue" where
  "studySidecar_object blockStarts md =
     JSObject [(str ''blockStarts'', JSArray (map (\<lambda>p. JSNumber (int p)) blockStarts)),
               (str ''studyMetadata'', md)]"

text \<open>
  \<^verbatim>\<open>blocksToBlob\<close> (lines 89-145). The string built at line 116 is never used and is
  left out, together with the engine's limit on the number of arguments of a call.
\<close>

definition blocksToBlob :: "encoder \<Rightarrow> error + blob" where
  "blocksToBlob enc =
     (if length (sidecarBuffers enc) \<noteq> length (dataBuffers enc) then Inl ConsistencyError
      else
        (case blockStarts_loop enc 0 [] 0 of
           Inl e \<Rightarrow> Inl e
         | Inr (blockStarts, bufferPosition) \<Rightarrow>
             (case buffer_of
                     (objectToUnicodeBuffer
                        (studySidecar_object blockStarts (studyMetadata enc))) of
                Inl e \<Rightarrow> Inl e
              | Inr studySidecarBuffer \<Rightarrow>
                  if not_ArrayBuffer studySidecarBuffer then Inl SerializationError
                  else
                    (case blobArray_loop enc 0
                            [Uint32Array_bytes (length studySidecarBuffer),
                             studySidecarBuffer] of
                       Inl e \<Rightarrow> Inl e
                     | Inr blobArray \<Rightarrow>
                         Inr (Blob blobArray ''application/octet-binary'')))))"

subsection \<open>The decoder\<close>

text \<open>
  \<^verbatim>\<open>new DataView(buffer, byteOffset)\<close>: a view on the bytes from \<open>byteOffset\<close> to the end
  of the buffer; an offset beyond the end throws.
\<close>

record dataView =
  view_buffer :: "byte list"
  view_byteOffset :: nat
  view_byteLength :: nat

definition DataView :: "byte list \<Rightarrow> nat \<Rightarrow> error + dataView" where
  "DataView buf offset =
     (if length buf < offset then Inl RangeError
      else Inr \<lparr>view_buffer = buf, view_byteOffset = offset,
                view_byteLength = length buf - offset\<rparr>)"

text \<open>The conversion of a boolean argument to an index: \<^verbatim>\<open>true\<close> is 1.\<close>

definition ToIndex_boolean :: "bool \<Rightarrow> nat" where
  "ToIndex_boolean b = (if b then 1 else 0)"

text \<open>The value of a sequence of bytes, least significant byte first.\<close>

fun le_value :: "byte list \<Rightarrow> nat" where
  "le_value [] = 0"
| "le_value (b # bs) = unat b + 256 * le_value bs"

text \<open>
  \<^verbatim>\<open>view.getUint32(getIndex, littleEndian)\<close>: four bytes of the view, big-endian
  unless \<open>littleEndian\<close> holds; a read beyond the view throws.
\<close>

definition getUint32 :: "dataView \<Rightarrow> nat \<Rightarrow> bool \<Rightarrow> error + nat" where
  "getUint32 view getIndex littleEndian =
     (if view_byteLength view < getIndex + 4 then Inl RangeError
      else
        (let bs = take 4 (drop (view_byteOffset view + getIndex) (view_buffer view))
         in Inr (le_value (if littleEndian then bs else rev bs))))"

text \<open>\<^verbatim>\<open>buffer.slice(begin, end)\<close>, both bounds clamped to the length of the buffer.\<close>

definition ArrayBuffer_slice :: "byte list \<Rightarrow> nat \<Rightarrow> nat \<Rightarrow> byte list" where
  "ArrayBuffer_slice buf begin_arg end_arg =
     (let first = min begin_arg (length buf); final = min end_arg (length buf)
      in take (final - first) (drop first buf))"

text \<open>
  \<^verbatim>\<open>new Uint16Array(buffer)\<close>: throws unless the byte length is a multiple of 2.
\<close>

fun uint16_elements :: "byte list \<Rightarrow> uint16 list" where
  "uint16_elements (lo # hi # rest) = of_nat (unat lo + 256 * unat hi) # uint16_elements rest"
| "uint16_elements rest = []"

definition Uint16Array_of :: "byte list \<Rightarrow> error + uint16 list" where
  "Uint16Array_of buf =
     (if length buf mod 2 \<noteq> 0 then Inl RangeError else Inr (uint16_elements buf))"

text \<open>\<^verbatim>\<open>String.fromCharCode(...units)\<close>: the string of the given code units.\<close>

definition fromCharCode :: "uint16 list \<Rightarrow> jsstring" where
  "fromCharCode units = units"

text \<open>Lines 280-284 of the load handler: the length read from the blob.\<close>

definition onload_studySidecarLength :: "byte list \<Rightarrow> error + nat" where
  "onload_studySidecarLength inputBuffer =
     (case DataView inputBuffer (ToIndex_boolean True) of
        Inl e \<Rightarrow> Inl e
      | Inr view \<Rightarrow> getUint32 view 0 False)"

text \<open>
  The load handler (lines 279-289): the string it passes to \<^verbatim>\<open>console.log\<close>, or the
  exception it throws.
\<close>

definition blobToBlocks_onload :: "byte list \<Rightarrow> error + jsstring" where
  "blobToBlocks_onload inputBuffer =
     (case onload_studySidecarLength inputBuffer of
        Inl e \<Rightarrow> Inl e
      | Inr studySidecarLength \<Rightarrow>
          (case Uint16Array_of (ArrayBuffer_slice inputBuffer 4 (4 + studySidecarLength)) of
             Inl e \<Rightarrow> Inl e
           | Inr studySidecarBuffer \<Rightarrow> Inr (fromCharCode studySidecarBuffer)))"

text \<open>
  \<^verbatim>\<open>blobToBlocks\<close> (lines 275-291): the value the method returns, which is
  \<^verbatim>\<open>undefined\<close>, and the outcome of the load handler once the file reader has read the
  blob.
\<close>

definition blobToBlocks :: "blob \<Rightarrow> jsvalue \<times> (error + jsstring)" where
  "blobToBlocks b = (JSUndefined, blobToBlocks_onload (blob_bytes b))"

subsection \<open>Reference quantities of the layout\<close>

text \<open>
  The size of block \<open>k\<close> in the blob, the running offset the format prescribes for
  block \<open>i\<close> (the sum of the sizes of the blocks before it), and the bytes of block
  \<open>k\<close>: length header, sidecar, data.
\<close>

definition block_size :: "encoder \<Rightarrow> nat \<Rightarrow> nat" where
  "block_size enc k = 4 + length (sidecarBuffers enc ! k) + length (dataBuffers enc ! k)"

definition spec_blockStart :: "encoder \<Rightarrow> nat \<Rightarrow> nat" where
  "spec_blockStart enc i = (\<Sum>k<i. block_size enc k)"

definition block_bytes :: "encoder \<Rightarrow> nat \<Rightarrow> byte list" where
  "block_bytes enc k =
     Uint32Array_bytes (length (sidecarBuffers enc ! k)) @ sidecarBuffers enc ! k @ dataBuffers enc ! k"

subsection \<open>Sample inputs\<close>

text \<open>
  The buffer of \<^verbatim>\<open>new Float32Array([1.0, 2.0, 3.0])\<close>, the metadata
  \<^verbatim>\<open>{unit: "mm"}\<close>, a three-element \<^verbatim>\<open>Uint8Array\<close>, an encoder whose two lists differ
  in length, an encoder holding two blocks, an encoder whose study metadata refers to
  itself, and a sequence of two \<^verbatim>\<open>addBlock\<close> calls with the encoder and the blob it
  leads to.
\<close>

definition float32_buffer :: typedArray where
  "float32_buffer =
     \<lparr>kind = Float32Array,
      buffer = [0x00, 0x00, 0x80, 0x3F, 0x00, 0x00, 0x00, 0x40, 0x00, 0x00, 0x40, 0x40],
      byteOffset = 0, elements = 3\<rparr>"

definition unit_mm :: jsvalue where
  "unit_mm = JSObject [(str ''unit'', JSString (str ''mm''))]"

definition uint8_sample :: typedArray where
  "uint8_sample = \<lparr>kind = Uint8Array, buffer = [1, 2, 3], byteOffset = 0, elements = 3\<rparr>"

definition unbalanced_encoder :: encoder where
  "unbalanced_encoder = \<lparr>sidecarBuffers = [[0x7B, 0x00, 0x7D, 0x00]], dataBuffers = [], studyMetadata = JSNull\<rparr>"

definition two_block_encoder :: encoder where
  "two_block_encoder =
     \<lparr>sidecarBuffers = [[0x7B, 0x00, 0x7D, 0x00], [0x31, 0x00]],
      dataBuffers = [[1, 2, 3], []], studyMetadata = JSNull\<rparr>"

definition cyclic_study_encoder :: encoder where
  "cyclic_study_encoder = setStudyMetadata JSCyclic PixpEncoder"

definition example_calls :: "(data \<times> jsvalue \<times> jsvalue) list" where
  "example_calls =
     [(TypedArray uint8_sample, JSNull, JSUndefined),
      (Value (JSString (str ''hi'')), unit_mm, JSString (str ''note''))]"

definition example_encoder :: encoder where
  "example_encoder = snd (addBlocks example_calls PixpEncoder)"

definition example_blob :: blob where
  "example_blob = projr (blocksToBlob (setStudyMetadata JSNull example_encoder))"

section \<open>Auxiliary lemmas\<close>

subsection \<open>Byte order\<close>

lemma base256_four:
  fixes a :: nat
  assumes "a < 2 ^ 32"
  shows "a mod 256 + 256 * (a div 256 mod 256
          + 256 * (a div 65536 mod 256 + 256 * (a div 16777216 mod 256))) = a"
proof -
  define q1 where "q1 = a div 256"
  define q2 where "q2 = q1 div 256"
  define q3 where "q3 = q2 div 256"
  have e2: "a div 65536 = q2" by (simp add: q1_def q2_def div_mult2_eq)
  have e3: "a div 16777216 = q3" by (simp add: q1_def q2_def q3_def div_mult2_eq)
  define r0 where "r0 = a mod 256"
  define r1 where "r1 = q1 mod 256"
  define r2 where "r2 = q2 mod 256"
  have d0: "a = r0 + 256 * q1" by (simp add: q1_def r0_def)
  have d1: "q1 = r1 + 256 * q2" by (simp add: q2_def r1_def)
  have d2: "q2 = r2 + 256 * q3" by (simp add: q3_def r2_def)
  have "q3 < 256" using assms e3 by (simp add: less_mult_imp_div_less)
  then have d3: "q3 mod 256 = q3" by simp
  have "r0 + 256 * (r1 + 256 * (r2 + 256 * q3)) = a"
    using d0 d1 d2 by simp
  then show ?thesis
    unfolding e2 e3 d3 q1_def [symmetric] r0_def [symmetric] r1_def [symmetric]
      r2_def [symmetric] .
qed

lemma base256_two:
  fixes a :: nat
  assumes "a < 2 ^ 16"
  shows "a mod 256 + 256 * (a div 256 mod 256) = a"
proof -
  have "a div 256 < 256" using assms by (simp add: less_mult_imp_div_less)
  then have "a div 256 mod 256 = a div 256" by simp
  then show ?thesis by simp
qed

lemma le_value_Uint32Array_bytes: "le_value (Uint32Array_bytes n) = n mod 2 ^ 32"
proof -
  define w where "w = (of_nat n :: 32 word)"
  have u: "unat w = n mod 2 ^ 32"
    by (simp add: w_def unat_of_nat)
  have lt: "unat w < 2 ^ 32"
    using unsigned_less [of w] by simp
  have b0: "unat (ucast w :: byte) = unat w mod 256"
    by (simp add: unsigned_ucast_eq take_bit_eq_mod)
  have b1: "unat (ucast (drop_bit 8 w) :: byte) = unat w div 256 mod 256"
    by (simp add: unsigned_ucast_eq unat_drop_bit_eq drop_bit_eq_div take_bit_eq_mod unat_div_distrib)
  have b2: "unat (ucast (drop_bit 16 w) :: byte) = unat w div 65536 mod 256"
    by (simp add: unsigned_ucast_eq unat_drop_bit_eq drop_bit_eq_div take_bit_eq_mod unat_div_distrib)
  have b3: "unat (ucast (drop_bit 24 w) :: byte) = unat w div 16777216 mod 256"
    by (simp add: unsigned_ucast_eq unat_drop_bit_eq drop_bit_eq_div take_bit_eq_mod unat_div_distrib)
  have "le_value (Uint32Array_bytes n)
      = unat w mod 256 + 256 * (unat w div 256 mod 256
          + 256 * (unat w div 65536 mod 256 + 256 * (unat w div 16777216 mod 256)))"
    unfolding Uint32Array_bytes_def Let_def w_def [symmetric] le_value.simps b0 b1 b2 b3
    by simp
  also have "\<dots> = unat w"
    by (rule base256_four [OF lt])
  finally show ?thesis using u by simp
qed

lemma uint16_elements_bytes: "uint16_elements (Uint16Array_bytes us) = us"
proof (induction us)
  case Nil
  then show ?case by (simp add: Uint16Array_bytes_def)
next
  case (Cons u us)
  have "(of_nat (unat (ucast u :: byte) + 256 * unat (ucast (drop_bit 8 u) :: byte)) :: uint16) = u"
  proof -
    have lt: "unat u < 2 ^ 16" using unsigned_less [of u] by simp
    have "unat (ucast u :: byte) + 256 * unat (ucast (drop_bit 8 u) :: byte)
        = unat u mod 256 + 256 * (unat u div 256 mod 256)"
      by (simp add: unsigned_ucast_eq unat_drop_bit_eq drop_bit_eq_div take_bit_eq_mod unat_div_distrib)
    also have "\<dots> = unat u" by (rule base256_two [OF lt])
    finally show ?thesis by simp
  qed
  with Cons show ?case
    by (simp add: Uint16Array_bytes_def uint16_bytes_def)
qed

lemma length_Uint32Array_bytes [simp]: "length (Uint32Array_bytes n) = 4"
  by (simp add: Uint32Array_bytes_def Let_def)

subsection \<open>Classifier and codec\<close>

lemma isTypedArray_TypedArray [simp]: "isTypedArray (TypedArray arr)"
  by (cases "kind arr") (simp_all add: isTypedArray_def)

lemma isTypedArray_Value [simp]: "\<not> isTypedArray (Value v)"
  by (simp add: isTypedArray_def)

lemma buffer_of_Inl: "buffer_of x = Inl e \<Longrightarrow> e = TypeError"
  by (auto simp: buffer_of_def split: option.splits)

lemma buffer_of_Inr:
  "buffer_of (objectToUnicodeBuffer x) = Inr s \<Longrightarrow>
   map_option Uint16Array_bytes (toJsonString x) = Some s"
  by (auto simp: buffer_of_def objectToUnicodeBuffer_def stringToUnicodeBuffer_def map_nth
           split: option.splits if_splits)

lemma addBlock_encoding_raw:
  assumes "addBlock_encoding d ot = Inr (e, raw)"
  shows "byteLength e = length raw \<and>
         originalType e = (if ot = JSUndefined then JSNull else ot) \<and>
         (\<forall>arr. d = TypedArray arr \<longrightarrow> raw = buffer arr \<and>
            bytesPerElement e = spec_bytesPerElement (getTypedArraySpec arr) \<and>
            dataType e = spec_dataType (getTypedArraySpec arr) \<and>
            signed_flag e = spec_signed (getTypedArraySpec arr)) \<and>
         (\<forall>v. d = Value v \<longrightarrow>
            dataType e = ''json'' \<and> bytesPerElement e = 2 \<and> signed_flag e = False \<and>
            map_option Uint16Array_bytes (toJsonString v) = Some raw)"
  using assms
  by (cases d)
     (auto simp: addBlock_encoding_def Let_def dest: buffer_of_Inr split: sum.splits if_splits)

lemma addBlock_Inr:
  assumes "addBlock d metadata ot enc = (Inr (), enc')"
  shows "\<exists>e raw sidecar.
     addBlock_encoding d ot = Inr (e, raw) \<and>
     buffer_of (objectToUnicodeBuffer
        (JSObject [(str ''encodingMetadata'', encoding_object e),
                   (str ''originalMetadata'', metadata)])) = Inr sidecar \<and>
     enc' = enc\<lparr>sidecarBuffers := sidecarBuffers enc @ [sidecar],
                dataBuffers := dataBuffers enc @ [raw]\<rparr>"
  using assms by (auto simp: addBlock_def Let_def split: sum.splits prod.splits)

lemma addBlock_Inl:
  assumes "addBlock d metadata ot enc = (Inl e, enc')"
  shows "enc' = enc \<and> e = TypeError"
  using assms
  by (auto simp: addBlock_def addBlock_encoding_def Let_def
           dest: buffer_of_Inl split: sum.splits prod.splits if_splits data.splits)

lemma addBlocks_Inr:
  "addBlocks calls enc0 = (Inr (), enc) \<Longrightarrow>
   \<exists>scs raws.
     enc = enc0\<lparr>sidecarBuffers := sidecarBuffers enc0 @ scs,
                dataBuffers := dataBuffers enc0 @ raws\<rparr> \<and>
     length scs = length calls \<and> length raws = length calls \<and>
     (\<forall>i<length calls. \<exists>e.
        addBlock_encoding (fst (calls ! i)) (snd (snd (calls ! i))) = Inr (e, raws ! i) \<and>
        buffer_of (objectToUnicodeBuffer
          (JSObject [(str ''encodingMetadata'', encoding_object e),
                     (str ''originalMetadata'', fst (snd (calls ! i)))])) = Inr (scs ! i))"
proof (induction calls arbitrary: enc0)
  case Nil
  then show ?case by simp
next
  case (Cons call calls)
  obtain d metadata ot where call: "call = (d, metadata, ot)"
    by (cases call) auto
  obtain r enc1 where step: "addBlock d metadata ot enc0 = (r, enc1)"
    by (cases "addBlock d metadata ot enc0") auto
  from Cons.prems call step have r: "r = Inr ()" and rest: "addBlocks calls enc1 = (Inr (), enc)"
    by (cases r; simp)+
  from addBlock_Inr [OF step [unfolded r]] obtain e raw sidecar where
    e: "addBlock_encoding d ot = Inr (e, raw)" and
    sc: "buffer_of (objectToUnicodeBuffer
        (JSObject [(str ''encodingMetadata'', encoding_object e),
                   (str ''originalMetadata'', metadata)])) = Inr sidecar" and
    enc1: "enc1 = enc0\<lparr>sidecarBuffers := sidecarBuffers enc0 @ [sidecar],
                dataBuffers := dataBuffers enc0 @ [raw]\<rparr>"
    by blast
  from Cons.IH [OF rest] obtain scs raws where
    enc: "enc = enc1\<lparr>sidecarBuffers := sidecarBuffers enc1 @ scs,
                dataBuffers := dataBuffers enc1 @ raws\<rparr>" and
    l1: "length scs = length calls" and l2: "length raws = length calls" and
    each: "\<forall>i<length calls. \<exists>e.
        addBlock_encoding (fst (calls ! i)) (snd (snd (calls ! i))) = Inr (e, raws ! i) \<and>
        buffer_of (objectToUnicodeBuffer
          (JSObject [(str ''encodingMetadata'', encoding_object e),
                     (str ''originalMetadata'', fst (snd (calls ! i)))])) = Inr (scs ! i)"
    by blast
  have "enc = enc0\<lparr>sidecarBuffers := sidecarBuffers enc0 @ (sidecar # scs),
                dataBuffers := dataBuffers enc0 @ (raw # raws)\<rparr>"
    using enc enc1 by simp
  moreover have "length (sidecar # scs) = length (call # calls)" using l1 by simp
  moreover have "length (raw # raws) = length (call # calls)" using l2 by simp
  moreover have "\<forall>i<length (call # calls). \<exists>e.
        addBlock_encoding (fst ((call # calls) ! i)) (snd (snd ((call # calls) ! i)))
          = Inr (e, (raw # raws) ! i) \<and>
        buffer_of (objectToUnicodeBuffer
          (JSObject [(str ''encodingMetadata'', encoding_object e),
                     (str ''originalMetadata'', fst (snd ((call # calls) ! i)))]))
          = Inr ((sidecar # scs) ! i)"
  proof (intro allI impI)
    fix i assume "i < length (call # calls)"
    then show "\<exists>e.
        addBlock_encoding (fst ((call # calls) ! i)) (snd (snd ((call # calls) ! i)))
          = Inr (e, (raw # raws) ! i) \<and>
        buffer_of (objectToUnicodeBuffer
          (JSObject [(str ''encodingMetadata'', encoding_object e),
                     (str ''originalMetadata'', fst (snd ((call # calls) ! i)))]))
          = Inr ((sidecar # scs) ! i)"
      using e sc call each by (cases i) auto
  qed
  ultimately show ?case by blast
qed

subsection \<open>The two loops of \<^verbatim>\<open>blocksToBlob\<close>\<close>

lemma spec_blockStart_Suc: "spec_blockStart enc (Suc i) = spec_blockStart enc i + block_size enc i"
  by (simp add: spec_blockStart_def)

lemma spec_blockStart_less:
  "i < j \<Longrightarrow> spec_blockStart enc i < spec_blockStart enc j"
proof (induction j)
  case 0
  then show ?case by simp
next
  case (Suc j)
  have "spec_blockStart enc j < spec_blockStart enc (Suc j)"
    by (simp add: spec_blockStart_Suc block_size_def)
  moreover have "i = j \<or> i < j" using Suc.prems by auto
  ultimately show ?case using Suc.IH by auto
qed

lemma blockStarts_loop_inv:
  "length (sidecarBuffers enc) = length (dataBuffers enc) \<Longrightarrow> i \<le> length (dataBuffers enc) \<Longrightarrow>
   acc = map (spec_blockStart enc) [0..<i] \<Longrightarrow> pos = spec_blockStart enc i \<Longrightarrow>
   blockStarts_loop enc i acc pos
     = Inr (map (spec_blockStart enc) [0..<length (dataBuffers enc)],
            spec_blockStart enc (length (dataBuffers enc)))"
proof (induction enc i acc pos rule: blockStarts_loop.induct)
  case (1 enc i blockStarts bufferPosition)
  show ?case
  proof (cases "i < length (dataBuffers enc)")
    case True
    have step: "blockStarts_loop enc i blockStarts bufferPosition
          = blockStarts_loop enc (i + 1) (blockStarts @ [bufferPosition])
             (bufferPosition + (length (sidecarBuffers enc ! i) + length (dataBuffers enc ! i)) + 4)"
      using True "1.prems"(1) by (subst blockStarts_loop.simps) simp
    have "blockStarts_loop enc (i + 1) (blockStarts @ [bufferPosition])
             (bufferPosition + (length (sidecarBuffers enc ! i) + length (dataBuffers enc ! i)) + 4)
          = Inr (map (spec_blockStart enc) [0..<length (dataBuffers enc)],
                 spec_blockStart enc (length (dataBuffers enc)))"
    proof (rule "1.IH")
      show "i < length (dataBuffers enc)" by (rule True)
      show "i < length (sidecarBuffers enc)" using True "1.prems"(1) by simp
      show "length (sidecarBuffers enc) = length (dataBuffers enc)" by (rule "1.prems"(1))
      show "i + 1 \<le> length (dataBuffers enc)" using True by simp
      show "blockStarts @ [bufferPosition] = map (spec_blockStart enc) [0..<i + 1]"
        using "1.prems"(3,4) by simp
      show "bufferPosition + (length (sidecarBuffers enc ! i) + length (dataBuffers enc ! i)) + 4
              = spec_blockStart enc (i + 1)"
        using "1.prems"(4) by (simp add: spec_blockStart_Suc block_size_def)
    qed
    with step show ?thesis by simp
  next
    case False
    with "1.prems"(2) have "i = length (dataBuffers enc)" by simp
    with "1.prems"(3,4) show ?thesis
      by (subst blockStarts_loop.simps) simp
  qed
qed

lemma blockStarts_loop_eq:
  "length (sidecarBuffers enc) = length (dataBuffers enc) \<Longrightarrow>
   blockStarts_loop enc 0 [] 0
     = Inr (map (spec_blockStart enc) [0..<length (dataBuffers enc)],
            spec_blockStart enc (length (dataBuffers enc)))"
  by (rule blockStarts_loop_inv) (simp_all add: spec_blockStart_def)

lemma blockStarts_loop_errors:
  "blockStarts_loop enc i acc pos = Inl e \<Longrightarrow> e = TypeError"
  by (induction enc i acc pos rule: blockStarts_loop.induct)
     (subst (asm) blockStarts_loop.simps, auto split: if_splits)

lemma blobArray_loop_inv:
  "length (sidecarBuffers enc) = length (dataBuffers enc) \<Longrightarrow> i \<le> length (dataBuffers enc) \<Longrightarrow>
   \<exists>parts. blobArray_loop enc i acc = Inr parts \<and>
     concat parts = concat acc @ concat (map (block_bytes enc) [i..<length (dataBuffers enc)])"
proof (induction enc i acc rule: blobArray_loop.induct)
  case (1 enc i blobArray)
  show ?case
  proof (cases "i < length (dataBuffers enc)")
    case True
    let ?acc = "blobArray @ [Uint32Array_bytes (length (sidecarBuffers enc ! i))]
                @ [sidecarBuffers enc ! i] @ [dataBuffers enc ! i]"
    have step: "blobArray_loop enc i blobArray = blobArray_loop enc (i + 1) ?acc"
      using True "1.prems"(1) by (subst blobArray_loop.simps) simp
    have "\<exists>parts. blobArray_loop enc (i + 1) ?acc = Inr parts \<and>
            concat parts = concat ?acc @ concat (map (block_bytes enc) [i + 1..<length (dataBuffers enc)])"
    proof (rule "1.IH")
      show "i < length (dataBuffers enc)" by (rule True)
      show "i < length (sidecarBuffers enc)" using True "1.prems"(1) by simp
      show "length (sidecarBuffers enc) = length (dataBuffers enc)" by (rule "1.prems"(1))
      show "i + 1 \<le> length (dataBuffers enc)" using True by simp
    qed
    moreover have "[i..<length (dataBuffers enc)] = i # [i + 1..<length (dataBuffers enc)]"
      using True by (simp add: upt_conv_Cons)
    moreover have "block_bytes enc i
        = Uint32Array_bytes (length (sidecarBuffers enc ! i)) @ sidecarBuffers enc ! i
            @ dataBuffers enc ! i"
      by (simp add: block_bytes_def)
    ultimately show ?thesis
      using step by simp
  next
    case False
    with "1.prems"(2) have "i = length (dataBuffers enc)" by simp
    then show ?thesis
      by (subst blobArray_loop.simps) simp
  qed
qed

lemma blobArray_loop_errors:
  "blobArray_loop enc i acc = Inl e \<Longrightarrow> e = TypeError"
  by (induction enc i acc rule: blobArray_loop.induct)
     (subst (asm) blobArray_loop.simps, auto split: if_splits)

lemma block_bytes_zip:
  assumes "length (sidecarBuffers enc) = length (dataBuffers enc)"
  shows "map (block_bytes enc) [0..<length (dataBuffers enc)]
     = map (\<lambda>(sidecar, raw). Uint32Array_bytes (length sidecar) @ sidecar @ raw)
         (zip (sidecarBuffers enc) (dataBuffers enc))"
  using assms by (intro nth_equalityI) (simp_all add: block_bytes_def)

lemma length_block_bytes: "length (block_bytes enc k) = block_size enc k"
  by (simp add: block_bytes_def block_size_def)

lemma drop_blockStart:
  "i \<le> n \<Longrightarrow>
   drop (spec_blockStart enc i) (concat (map (block_bytes enc) [0..<n]))
     = concat (map (block_bytes enc) [i..<n])"
proof (induction i)
  case 0
  then show ?case by (simp add: spec_blockStart_def)
next
  case (Suc i)
  then have lt: "i < n" by simp
  have "drop (spec_blockStart enc (Suc i)) (concat (map (block_bytes enc) [0..<n]))
      = drop (block_size enc i) (drop (spec_blockStart enc i) (concat (map (block_bytes enc) [0..<n])))"
    by (simp add: spec_blockStart_Suc add.commute)
  also have "\<dots> = drop (block_size enc i) (concat (map (block_bytes enc) [i..<n]))"
    using Suc.IH lt by simp
  also have "\<dots> = drop (block_size enc i) (block_bytes enc i @ concat (map (block_bytes enc) [Suc i..<n]))"
    using lt by (simp add: upt_conv_Cons)
  also have "\<dots> = concat (map (block_bytes enc) [Suc i..<n])"
    by (simp add: length_block_bytes)
  finally show ?case .
qed

lemma take_block:
  assumes "i < n"
  shows "take (block_size enc i)
           (drop (spec_blockStart enc i) (concat (map (block_bytes enc) [0..<n])))
         = block_bytes enc i"
proof -
  have "drop (spec_blockStart enc i) (concat (map (block_bytes enc) [0..<n]))
      = concat (map (block_bytes enc) [i..<n])"
    using assms by (simp add: drop_blockStart)
  also have "\<dots> = block_bytes enc i @ concat (map (block_bytes enc) [Suc i..<n])"
    using assms by (simp add: upt_conv_Cons [of i n])
  finally show ?thesis by (simp add: length_block_bytes)
qed

lemma blocksToBlob_Inr:
  assumes "blocksToBlob enc = Inr b"
  shows "length (sidecarBuffers enc) = length (dataBuffers enc) \<and>
    (\<exists>study.
       buffer_of (objectToUnicodeBuffer
          (studySidecar_object (map (spec_blockStart enc) [0..<length (dataBuffers enc)])
             (studyMetadata enc))) = Inr study \<and>
       blob_bytes b = Uint32Array_bytes (length study) @ study
          @ concat (map (block_bytes enc) [0..<length (dataBuffers enc)]))"
proof -
  have len: "length (sidecarBuffers enc) = length (dataBuffers enc)"
    using assms by (auto simp: blocksToBlob_def split: if_splits)
  note bs = blockStarts_loop_eq [OF len]
  let ?obj = "studySidecar_object (map (spec_blockStart enc) [0..<length (dataBuffers enc)])
             (studyMetadata enc)"
  from assms len bs obtain study where
    study: "buffer_of (objectToUnicodeBuffer ?obj) = Inr study"
    by (auto simp: blocksToBlob_def split: sum.splits)
  from blobArray_loop_inv [OF len, of 0 "[Uint32Array_bytes (length study), study]"]
  obtain parts where
    parts: "blobArray_loop enc 0 [Uint32Array_bytes (length study), study] = Inr parts"
      and cat: "concat parts = concat [Uint32Array_bytes (length study), study]
          @ concat (map (block_bytes enc) [0..<length (dataBuffers enc)])"
    by auto
  from assms len bs study parts have "b = Blob parts ''application/octet-binary''"
    by (simp add: blocksToBlob_def not_ArrayBuffer_def)
  with cat have "blob_bytes b = Uint32Array_bytes (length study) @ study
          @ concat (map (block_bytes enc) [0..<length (dataBuffers enc)])"
    by (simp add: Blob_def)
  with len study show ?thesis by blast
qed

text \<open>
  The length header of a built blob is the little-endian value of the length of the study
  sidecar, at bytes 0 to 3.
\<close>

lemma blob_header_little_endian:
  assumes "blocksToBlob enc = Inr b"
  shows "\<exists>study.
     take (length study) (drop 4 (blob_bytes b)) = study \<and>
     le_value (take 4 (blob_bytes b)) = length study mod 2 ^ 32"
proof -
  from blocksToBlob_Inr [OF assms] obtain study where
    "blob_bytes b = Uint32Array_bytes (length study) @ study
          @ concat (map (block_bytes enc) [0..<length (dataBuffers enc)])"
    by blast
  then have "take (length study) (drop 4 (blob_bytes b)) = study"
    and "le_value (take 4 (blob_bytes b)) = length study mod 2 ^ 32"
    by (simp_all add: le_value_Uint32Array_bytes)
  then show ?thesis by blast
qed

text \<open>
  The load handler of the decoder reads bytes 1 to 4 of the blob, most significant byte
  first, and throws on a blob of fewer than five bytes.
\<close>

lemma onload_studySidecarLength_eq:
  "onload_studySidecarLength buf =
     (if length buf < 5 then Inl RangeError
      else Inr (le_value (rev (take 4 (drop 1 buf)))))"
  by (auto simp: onload_studySidecarLength_def DataView_def ToIndex_boolean_def getUint32_def)

section \<open>The claims\<close>

text \<open>
  Claim C1 (round trip). \<^verbatim>\<open>blobToBlocks\<close> returns \<^verbatim>\<open>undefined\<close> and iterates
  over no block, so nothing is reproduced by decoding. What holds of the built blob: after
  any sequence of successful \<^verbatim>\<open>addBlock\<close> calls on a fresh encoder and a successful build,
  bytes 0 to \<open>4 + L0\<close> are the length header and the Unicode-JSON text of
  \<^verbatim>\<open>{blockStarts, studyMetadata}\<close>, \<open>blockStarts\<close> has one entry per call, and for
  every call \<open>i\<close>, in call order, the bytes at offset \<open>4 + L0 + blockStarts[i]\<close> are
  the four-byte length of the block's sidecar, the Unicode-JSON text of
  \<^verbatim>\<open>{encodingMetadata, originalMetadata}\<close> with the metadata and the original type of
  that call, and the raw data byte for byte: the whole underlying buffer of a typed array,
  the Unicode-JSON text of any other value.
\<close>

theorem blocks_stored_at_offsets:
  assumes "addBlocks calls PixpEncoder = (Inr (), enc)"
      and "blocksToBlob (setStudyMetadata md enc) = Inr b"
  shows "fst (blobToBlocks b) = JSUndefined \<and>
    (\<exists>blockStarts total study.
       blockStarts_loop enc 0 [] 0 = Inr (blockStarts, total) \<and>
       length blockStarts = length calls \<and>
       map_option Uint16Array_bytes (toJsonString (studySidecar_object blockStarts md))
         = Some study \<and>
       take (4 + length study) (blob_bytes b) = Uint32Array_bytes (length study) @ study \<and>
       (\<forall>i<length calls. \<exists>e raw sidecar.
          addBlock_encoding (fst (calls ! i)) (snd (snd (calls ! i))) = Inr (e, raw) \<and>
          originalType e
            = (if snd (snd (calls ! i)) = JSUndefined then JSNull else snd (snd (calls ! i))) \<and>
          (\<forall>arr. fst (calls ! i) = TypedArray arr \<longrightarrow> raw = buffer arr) \<and>
          (\<forall>v. fst (calls ! i) = Value v \<longrightarrow>
             map_option Uint16Array_bytes (toJsonString v) = Some raw) \<and>
          map_option Uint16Array_bytes
            (toJsonString
               (JSObject [(str ''encodingMetadata'', encoding_object e),
                          (str ''originalMetadata'', fst (snd (calls ! i)))])) = Some sidecar \<and>
          take (4 + length sidecar + length raw)
               (drop (4 + length study + blockStarts ! i) (blob_bytes b))
            = Uint32Array_bytes (length sidecar) @ sidecar @ raw))"
proof -
  from addBlocks_Inr [OF assms(1)] obtain scs raws where
    enc: "enc = PixpEncoder\<lparr>sidecarBuffers := sidecarBuffers PixpEncoder @ scs,
                dataBuffers := dataBuffers PixpEncoder @ raws\<rparr>" and
    l1: "length scs = length calls" and l2: "length raws = length calls" and
    each: "\<forall>i<length calls. \<exists>e.
        addBlock_encoding (fst (calls ! i)) (snd (snd (calls ! i))) = Inr (e, raws ! i) \<and>
        buffer_of (objectToUnicodeBuffer
          (JSObject [(str ''encodingMetadata'', encoding_object e),
                     (str ''originalMetadata'', fst (snd (calls ! i)))])) = Inr (scs ! i)"
    by blast
  let ?enc = "setStudyMetadata md enc"
  have scs: "sidecarBuffers ?enc = scs" and raws: "dataBuffers ?enc = raws"
    and md: "studyMetadata ?enc = md"
    using enc by (simp_all add: setStudyMetadata_def PixpEncoder_def)
  have same: "spec_blockStart ?enc = spec_blockStart enc"
    by (simp add: spec_blockStart_def block_size_def setStudyMetadata_def fun_eq_iff)
  have len: "length (sidecarBuffers enc) = length (dataBuffers enc)"
    using enc l1 l2 by (simp add: PixpEncoder_def)
  let ?n = "length calls"
  let ?bs = "map (spec_blockStart ?enc) [0..<?n]"
  from blocksToBlob_Inr [OF assms(2)] obtain study where
    study: "buffer_of (objectToUnicodeBuffer (studySidecar_object ?bs md)) = Inr study" and
    bytes: "blob_bytes b = Uint32Array_bytes (length study) @ study
          @ concat (map (block_bytes ?enc) [0..<?n])"
    using raws md l2 by auto
  have run: "blockStarts_loop enc 0 [] 0 = Inr (?bs, spec_blockStart enc ?n)"
    using blockStarts_loop_eq [OF len] enc l2 same by (simp add: PixpEncoder_def)
  have head: "take (4 + length study) (blob_bytes b) = Uint32Array_bytes (length study) @ study"
    using bytes by simp
  have blocks: "\<forall>i<?n. \<exists>e raw sidecar.
          addBlock_encoding (fst (calls ! i)) (snd (snd (calls ! i))) = Inr (e, raw) \<and>
          originalType e
            = (if snd (snd (calls ! i)) = JSUndefined then JSNull else snd (snd (calls ! i))) \<and>
          (\<forall>arr. fst (calls ! i) = TypedArray arr \<longrightarrow> raw = buffer arr) \<and>
          (\<forall>v. fst (calls ! i) = Value v \<longrightarrow>
             map_option Uint16Array_bytes (toJsonString v) = Some raw) \<and>
          map_option Uint16Array_bytes
            (toJsonString
               (JSObject [(str ''encodingMetadata'', encoding_object e),
                          (str ''originalMetadata'', fst (snd (calls ! i)))])) = Some sidecar \<and>
          take (4 + length sidecar + length raw)
               (drop (4 + length study + ?bs ! i) (blob_bytes b))
            = Uint32Array_bytes (length sidecar) @ sidecar @ raw"
  proof (intro allI impI)
    fix i assume i: "i < ?n"
    with each obtain e where
      e: "addBlock_encoding (fst (calls ! i)) (snd (snd (calls ! i))) = Inr (e, raws ! i)" and
      sc: "buffer_of (objectToUnicodeBuffer
          (JSObject [(str ''encodingMetadata'', encoding_object e),
                     (str ''originalMetadata'', fst (snd (calls ! i)))])) = Inr (scs ! i)"
      by blast
    have size: "block_size ?enc i = 4 + length (scs ! i) + length (raws ! i)"
      by (simp add: block_size_def scs raws)
    have blk: "block_bytes ?enc i = Uint32Array_bytes (length (scs ! i)) @ scs ! i @ raws ! i"
      by (simp add: block_bytes_def scs raws)
    have "drop (4 + length study + ?bs ! i) (blob_bytes b)
        = drop (spec_blockStart ?enc i) (concat (map (block_bytes ?enc) [0..<?n]))"
      using bytes i by simp
    then have "take (4 + length (scs ! i) + length (raws ! i))
               (drop (4 + length study + ?bs ! i) (blob_bytes b))
        = Uint32Array_bytes (length (scs ! i)) @ scs ! i @ raws ! i"
      using take_block [OF i, of ?enc] size blk by simp
    with e buffer_of_Inr [OF sc] addBlock_encoding_raw [OF e]
    show "\<exists>e raw sidecar.
          addBlock_encoding (fst (calls ! i)) (snd (snd (calls ! i))) = Inr (e, raw) \<and>
          originalType e
            = (if snd (snd (calls ! i)) = JSUndefined then JSNull else snd (snd (calls ! i))) \<and>
          (\<forall>arr. fst (calls ! i) = TypedArray arr \<longrightarrow> raw = buffer arr) \<and>
          (\<forall>v. fst (calls ! i) = Value v \<longrightarrow>
             map_option Uint16Array_bytes (toJsonString v) = Some raw) \<and>
          map_option Uint16Array_bytes
            (toJsonString
               (JSObject [(str ''encodingMetadata'', encoding_object e),
                          (str ''originalMetadata'', fst (snd (calls ! i)))])) = Some sidecar \<and>
          take (4 + length sidecar + length raw)
               (drop (4 + length study + ?bs ! i) (blob_bytes b))
            = Uint32Array_bytes (length sidecar) @ sidecar @ raw"
      by blast
  qed
  have "fst (blobToBlocks b) = JSUndefined" by (simp add: blobToBlocks_def)
  moreover have "length ?bs = ?n" by simp
  ultimately show ?thesis
    using run buffer_of_Inr [OF study] head blocks by blast
qed

theorem blocks_stored_at_offsets_witness:
  "addBlocks example_calls PixpEncoder = (Inr (), example_encoder) \<and>
   blocksToBlob (setStudyMetadata JSNull example_encoder) = Inr example_blob \<and>
   fst (blobToBlocks example_blob) = JSUndefined \<and>
    (\<exists>blockStarts total study.
       blockStarts_loop example_encoder 0 [] 0 = Inr (blockStarts, total) \<and>
       length blockStarts = length example_calls \<and>
       map_option Uint16Array_bytes (toJsonString (studySidecar_object blockStarts JSNull))
         = Some study \<and>
       take (4 + length study) (blob_bytes example_blob)
         = Uint32Array_bytes (length study) @ study \<and>
       (\<forall>i<length example_calls. \<exists>e raw sidecar.
          addBlock_encoding (fst (example_calls ! i)) (snd (snd (example_calls ! i)))
            = Inr (e, raw) \<and>
          originalType e
            = (if snd (snd (example_calls ! i)) = JSUndefined then JSNull else snd (snd (example_calls ! i))) \<and>
          (\<forall>arr. fst (example_calls ! i) = TypedArray arr \<longrightarrow> raw = buffer arr) \<and>
          (\<forall>v. fst (example_calls ! i) = Value v \<longrightarrow>
             map_option Uint16Array_bytes (toJsonString v) = Some raw) \<and>
          map_option Uint16Array_bytes
            (toJsonString
               (JSObject [(str ''encodingMetadata'', encoding_object e),
                          (str ''originalMetadata'', fst (snd (example_calls ! i)))]))
            = Some sidecar \<and>
          take (4 + length sidecar + length raw)
               (drop (4 + length study + blockStarts ! i) (blob_bytes example_blob))
            = Uint32Array_bytes (length sidecar) @ sidecar @ raw))"
proof -
  have h1: "addBlocks example_calls PixpEncoder = (Inr (), example_encoder)"
    by code_simp
  have h2: "blocksToBlob (setStudyMetadata JSNull example_encoder) = Inr example_blob"
    by code_simp
  from blocks_stored_at_offsets [OF h1 h2] h1 h2 show ?thesis by blast
qed

text \<open>
  Against claim C1 as it is stated: a three-byte \<^verbatim>\<open>Uint8Array\<close> is added and the blob
  built; \<^verbatim>\<open>blobToBlocks\<close> on that blob returns \<^verbatim>\<open>undefined\<close>, and its load handler throws
  a \<^verbatim>\<open>RangeError\<close> (the length it reads is 123, an odd number of bytes for a
  \<^verbatim>\<open>Uint16Array\<close>).
\<close>

theorem roundtrip_counterexample:
  "map_sum id blobToBlocks
     (blocksToBlob (snd (addBlock (TypedArray uint8_sample) JSNull JSUndefined PixpEncoder)))
   = Inr (JSUndefined, Inl RangeError)"
  by code_simp

text \<open>
  Claim C2 (first step of the decoder). The claim has the length read from bytes 0 to 3,
  little-endian. On the blob that a fresh encoder builds those bytes hold 74, the length
  of the study sidecar, and the load handler reads 123: the view starts at byte 1 (the
  argument \<^verbatim>\<open>true\<close> of \<^verbatim>\<open>new DataView\<close> is the byte offset) and \<^verbatim>\<open>getUint32(0)\<close> is
  big-endian. A blob of four bytes, and one of three, make it throw.
\<close>

theorem decoder_reads_shifted_big_endian:
  "map_sum id (\<lambda>b. (le_value (take 4 (blob_bytes b)), onload_studySidecarLength (blob_bytes b)))
     (blocksToBlob PixpEncoder) = Inr (74, Inr 123)
   \<and> onload_studySidecarLength [74, 0, 0, 0] = Inl RangeError
   \<and> onload_studySidecarLength [74, 0, 0] = Inl RangeError"
  by code_simp

text \<open>
  Claim C3 (concrete scenario). For the 32-bit float buffer of \<open>[1.0, 2.0, 3.0]\<close>,
  metadata \<^verbatim>\<open>{unit: "mm"}\<close> and original type \<^verbatim>\<open>"Image2D"\<close>, the encoding metadata is
  \<^verbatim>\<open>{originalType: "Image2D", dataType: "float", bytesPerElement: 4, signed: false,
  byteLength: 12}\<close>; the sidecar stored by \<^verbatim>\<open>addBlock\<close> and the blob of \<^verbatim>\<open>blocksToBlob\<close>
  carry it.
\<close>

theorem float32_scenario:
  \<open>addBlock_encoding (TypedArray float32_buffer) (JSString (str ''Image2D''))
     = Inr (\<lparr>originalType = JSString (str ''Image2D''), bytesPerElement = 4,
             dataType = ''float'', signed_flag = False, byteLength = 12\<rparr>,
            buffer float32_buffer)
   \<and> addBlock (TypedArray float32_buffer) unit_mm (JSString (str ''Image2D'')) PixpEncoder
     = (Inr (),
        \<lparr>sidecarBuffers =
           [Uint16Array_bytes (str ''{"encodingMetadata":{"originalType":"Image2D","bytesPerElement":4,"dataType":"float","signed":false,"byteLength":12},"originalMetadata":{"unit":"mm"}}'')],
         dataBuffers = [buffer float32_buffer],
         studyMetadata = JSObject []\<rparr>)
   \<and> map_sum id blob_bytes
        (blocksToBlob
           (snd (addBlock (TypedArray float32_buffer) unit_mm (JSString (str ''Image2D''))
                   PixpEncoder)))
     = Inr (Uint32Array_bytes 76
            @ Uint16Array_bytes (str ''{"blockStarts":[0],"studyMetadata":{}}'')
            @ Uint32Array_bytes 300
            @ Uint16Array_bytes (str ''{"encodingMetadata":{"originalType":"Image2D","bytesPerElement":4,"dataType":"float","signed":false,"byteLength":12},"originalMetadata":{"unit":"mm"}}'')
            @ buffer float32_buffer)\<close>
  by code_simp

text \<open>
  Claim C4 (classifier). \<^verbatim>\<open>_getTypedArraySpec\<close> is a function of the kind of the array
  alone, over the nine kinds: the signed integer kinds get \<open>signed = False\<close>, the
  unsigned ones and the clamped one \<open>signed = True\<close>, both float kinds
  \<open>dataType = ''float''\<close> and \<open>signed = False\<close>.
\<close>

theorem classifier_table:
  "getTypedArraySpec \<lparr>kind = Int8Array, buffer = b, byteOffset = off, elements = n\<rparr>
     = \<lparr>spec_bytesPerElement = 1, spec_dataType = ''int'', spec_signed = False\<rparr>
   \<and> getTypedArraySpec \<lparr>kind = Uint8Array, buffer = b, byteOffset = off, elements = n\<rparr>
     = \<lparr>spec_bytesPerElement = 1, spec_dataType = ''int'', spec_signed = True\<rparr>
   \<and> getTypedArraySpec \<lparr>kind = Uint8ClampedArray, buffer = b, byteOffset = off, elements = n\<rparr>
     = \<lparr>spec_bytesPerElement = 1, spec_dataType = ''int'', spec_signed = True\<rparr>
   \<and> getTypedArraySpec \<lparr>kind = Int16Array, buffer = b, byteOffset = off, elements = n\<rparr>
     = \<lparr>spec_bytesPerElement = 2, spec_dataType = ''int'', spec_signed = False\<rparr>
   \<and> getTypedArraySpec \<lparr>kind = Uint16Array, buffer = b, byteOffset = off, elements = n\<rparr>
     = \<lparr>spec_bytesPerElement = 2, spec_dataType = ''int'', spec_signed = True\<rparr>
   \<and> getTypedArraySpec \<lparr>kind = Int32Array, buffer = b, byteOffset = off, elements = n\<rparr>
     = \<lparr>spec_bytesPerElement = 4, spec_dataType = ''int'', spec_signed = False\<rparr>
   \<and> getTypedArraySpec \<lparr>kind = Uint32Array, buffer = b, byteOffset = off, elements = n\<rparr>
     = \<lparr>spec_bytesPerElement = 4, spec_dataType = ''int'', spec_signed = True\<rparr>
   \<and> getTypedArraySpec \<lparr>kind = Float32Array, buffer = b, byteOffset = off, elements = n\<rparr>
     = \<lparr>spec_bytesPerElement = 4, spec_dataType = ''float'', spec_signed = False\<rparr>
   \<and> getTypedArraySpec \<lparr>kind = Float64Array, buffer = b, byteOffset = off, elements = n\<rparr>
     = \<lparr>spec_bytesPerElement = 8, spec_dataType = ''float'', spec_signed = False\<rparr>"
  by (simp add: getTypedArraySpec_def)

text \<open>
  Claim C5 (offset table). When the two lists have the same length, the first loop of
  \<^verbatim>\<open>blocksToBlob\<close> returns a list \<open>blockStarts\<close> with one entry per block, entry \<open>i\<close>
  being the sum over \<open>k < i\<close> of \<open>4 + sidecarLen k + dataLen k\<close>; its first entry, if
  there is one, is 0, and it is strictly increasing.
\<close>

theorem blockStarts_running_offsets:
  assumes "length (sidecarBuffers enc) = length (dataBuffers enc)"
  shows "\<exists>blockStarts total.
     blockStarts_loop enc 0 [] 0 = Inr (blockStarts, total) \<and>
     length blockStarts = length (dataBuffers enc) \<and>
     (\<forall>i<length blockStarts.
        blockStarts ! i
          = (\<Sum>k<i. 4 + length (sidecarBuffers enc ! k) + length (dataBuffers enc ! k))) \<and>
     (blockStarts \<noteq> [] \<longrightarrow> blockStarts ! 0 = 0) \<and>
     (\<forall>i j. i < j \<and> j < length blockStarts \<longrightarrow> blockStarts ! i < blockStarts ! j)"
proof -
  let ?n = "length (dataBuffers enc)"
  let ?bs = "map (spec_blockStart enc) [0..<?n]"
  have run: "blockStarts_loop enc 0 [] 0 = Inr (?bs, spec_blockStart enc ?n)"
    by (rule blockStarts_loop_eq [OF assms])
  have len: "length ?bs = ?n" by simp
  have nth: "\<forall>i<length ?bs. ?bs ! i
      = (\<Sum>k<i. 4 + length (sidecarBuffers enc ! k) + length (dataBuffers enc ! k))"
    by (simp add: spec_blockStart_def block_size_def)
  have first: "?bs \<noteq> [] \<longrightarrow> ?bs ! 0 = 0"
    by (simp add: spec_blockStart_def)
  have incr: "\<forall>i j. i < j \<and> j < length ?bs \<longrightarrow> ?bs ! i < ?bs ! j"
    by (simp add: spec_blockStart_less)
  from run len nth first incr show ?thesis by blast
qed

theorem blockStarts_running_offsets_witness:
  "length (sidecarBuffers two_block_encoder) = length (dataBuffers two_block_encoder) \<and>
   (\<exists>blockStarts total.
     blockStarts_loop two_block_encoder 0 [] 0 = Inr (blockStarts, total) \<and>
     length blockStarts = length (dataBuffers two_block_encoder) \<and>
     (\<forall>i<length blockStarts.
        blockStarts ! i
          = (\<Sum>k<i. 4 + length (sidecarBuffers two_block_encoder ! k)
                      + length (dataBuffers two_block_encoder ! k))) \<and>
     (blockStarts \<noteq> [] \<longrightarrow> blockStarts ! 0 = 0) \<and>
     (\<forall>i j. i < j \<and> j < length blockStarts \<longrightarrow> blockStarts ! i < blockStarts ! j))"
proof -
  have h: "length (sidecarBuffers two_block_encoder) = length (dataBuffers two_block_encoder)"
    by (simp add: two_block_encoder_def)
  from blockStarts_running_offsets [OF h] h show ?thesis by blast
qed

text \<open>
  Claim C6 (layout). The bytes of a blob that \<^verbatim>\<open>blocksToBlob\<close> returns are, in order:
  the four-byte length of the study sidecar, the study sidecar (the Unicode-JSON text of
  \<^verbatim>\<open>{blockStarts, studyMetadata}\<close>), then for each block, in the order of the lists, the
  four-byte length of its sidecar, its sidecar and its data.
\<close>

theorem blob_is_concatenation:
  assumes "blocksToBlob enc = Inr b"
  shows "\<exists>blockStarts total study.
     blockStarts_loop enc 0 [] 0 = Inr (blockStarts, total) \<and>
     map_option Uint16Array_bytes
       (toJsonString (studySidecar_object blockStarts (studyMetadata enc))) = Some study \<and>
     blob_bytes b
       = Uint32Array_bytes (length study) @ study
         @ concat (map (\<lambda>(sidecar, raw). Uint32Array_bytes (length sidecar) @ sidecar @ raw)
                     (zip (sidecarBuffers enc) (dataBuffers enc)))"
proof -
  from blocksToBlob_Inr [OF assms] obtain study where
    len: "length (sidecarBuffers enc) = length (dataBuffers enc)" and
    study: "buffer_of (objectToUnicodeBuffer
          (studySidecar_object (map (spec_blockStart enc) [0..<length (dataBuffers enc)])
             (studyMetadata enc))) = Inr study" and
    bytes: "blob_bytes b = Uint32Array_bytes (length study) @ study
          @ concat (map (block_bytes enc) [0..<length (dataBuffers enc)])"
    by blast
  from bytes have "blob_bytes b = Uint32Array_bytes (length study) @ study
         @ concat (map (\<lambda>(sidecar, raw). Uint32Array_bytes (length sidecar) @ sidecar @ raw)
                     (zip (sidecarBuffers enc) (dataBuffers enc)))"
    by (simp only: block_bytes_zip [OF len])
  with blockStarts_loop_eq [OF len] buffer_of_Inr [OF study] show ?thesis by blast
qed

theorem blob_is_concatenation_witness:
  "blocksToBlob two_block_encoder = Inr (projr (blocksToBlob two_block_encoder)) \<and>
   (\<exists>blockStarts total study.
     blockStarts_loop two_block_encoder 0 [] 0 = Inr (blockStarts, total) \<and>
     map_option Uint16Array_bytes
       (toJsonString (studySidecar_object blockStarts (studyMetadata two_block_encoder)))
         = Some study \<and>
     blob_bytes (projr (blocksToBlob two_block_encoder))
       = Uint32Array_bytes (length study) @ study
         @ concat (map (\<lambda>(sidecar, raw). Uint32Array_bytes (length sidecar) @ sidecar @ raw)
                     (zip (sidecarBuffers two_block_encoder) (dataBuffers two_block_encoder))))"
proof -
  have h: "blocksToBlob two_block_encoder = Inr (projr (blocksToBlob two_block_encoder))"
    by code_simp
  from blob_is_concatenation [OF h] h show ?thesis by blast
qed

text \<open>
  Claim C7 (json fallback and byte length). A successful \<^verbatim>\<open>addBlock\<close> appends the raw
  data and the sidecar of the encoding descriptor; the descriptor's \<open>byteLength\<close> is the
  length of the raw data in every case; and for data that is not a typed array the
  descriptor is \<open>dataType = ''json''\<close>, \<open>bytesPerElement = 2\<close>, \<open>signed = False\<close> and
  the raw data is the Unicode-JSON text of the value.
\<close>

theorem json_fallback_descriptor:
  assumes "addBlock d metadata ot enc = (Inr (), enc')"
  shows "\<exists>e raw sidecar.
     addBlock_encoding d ot = Inr (e, raw) \<and>
     dataBuffers enc' = dataBuffers enc @ [raw] \<and>
     sidecarBuffers enc' = sidecarBuffers enc @ [sidecar] \<and>
     map_option Uint16Array_bytes
       (toJsonString (JSObject [(str ''encodingMetadata'', encoding_object e),
                                (str ''originalMetadata'', metadata)])) = Some sidecar \<and>
     byteLength e = length raw \<and>
     (\<not> isTypedArray d \<longrightarrow>
        dataType e = ''json'' \<and> bytesPerElement e = 2 \<and> signed_flag e = False \<and>
        (\<exists>v. d = Value v \<and> map_option Uint16Array_bytes (toJsonString v) = Some raw))"
proof -
  from addBlock_Inr [OF assms] obtain e raw sidecar where
    e: "addBlock_encoding d ot = Inr (e, raw)" and
    sc: "buffer_of (objectToUnicodeBuffer
        (JSObject [(str ''encodingMetadata'', encoding_object e),
                   (str ''originalMetadata'', metadata)])) = Inr sidecar" and
    enc': "enc' = enc\<lparr>sidecarBuffers := sidecarBuffers enc @ [sidecar],
                dataBuffers := dataBuffers enc @ [raw]\<rparr>"
    by blast
  note raw = addBlock_encoding_raw [OF e]
  have json: "\<not> isTypedArray d \<longrightarrow>
        dataType e = ''json'' \<and> bytesPerElement e = 2 \<and> signed_flag e = False \<and>
        (\<exists>v. d = Value v \<and> map_option Uint16Array_bytes (toJsonString v) = Some raw)"
    using raw by (cases d) simp_all
  have "dataBuffers enc' = dataBuffers enc @ [raw]"
    and "sidecarBuffers enc' = sidecarBuffers enc @ [sidecar]"
    using enc' by simp_all
  with e buffer_of_Inr [OF sc] raw json show ?thesis by blast
qed

theorem json_fallback_descriptor_witness:
  "addBlock (Value (JSString (str ''hi''))) unit_mm JSUndefined PixpEncoder
     = (Inr (), snd (addBlock (Value (JSString (str ''hi''))) unit_mm JSUndefined PixpEncoder)) \<and>
   \<not> isTypedArray (Value (JSString (str ''hi''))) \<and>
   (\<exists>e raw sidecar.
     addBlock_encoding (Value (JSString (str ''hi''))) JSUndefined = Inr (e, raw) \<and>
     dataBuffers (snd (addBlock (Value (JSString (str ''hi''))) unit_mm JSUndefined PixpEncoder))
       = dataBuffers PixpEncoder @ [raw] \<and>
     sidecarBuffers (snd (addBlock (Value (JSString (str ''hi''))) unit_mm JSUndefined PixpEncoder))
       = sidecarBuffers PixpEncoder @ [sidecar] \<and>
     map_option Uint16Array_bytes
       (toJsonString (JSObject [(str ''encodingMetadata'', encoding_object e),
                                (str ''originalMetadata'', unit_mm)])) = Some sidecar \<and>
     byteLength e = length raw \<and>
     (\<not> isTypedArray (Value (JSString (str ''hi''))) \<longrightarrow>
        dataType e = ''json'' \<and> bytesPerElement e = 2 \<and> signed_flag e = False \<and>
        (\<exists>v. Value (JSString (str ''hi'')) = Value v \<and>
             map_option Uint16Array_bytes (toJsonString v) = Some raw)))"
proof -
  have h: "addBlock (Value (JSString (str ''hi''))) unit_mm JSUndefined PixpEncoder
     = (Inr (), snd (addBlock (Value (JSString (str ''hi''))) unit_mm JSUndefined PixpEncoder))"
    by code_simp
  have t: "\<not> isTypedArray (Value (JSString (str ''hi'')))"
    by (simp add: isTypedArray_def)
  from json_fallback_descriptor [OF h] h t show ?thesis by blast
qed

text \<open>
  Claim C8 (study sidecar that cannot be serialized). The claim has \<^verbatim>\<open>blocksToBlob\<close>
  return a named failure and never throw. With study metadata that refers to itself,
  \<^verbatim>\<open>_objectToUnicodeBuffer\<close> returns \<^verbatim>\<open>null\<close> and line 114 reads \<^verbatim>\<open>.buffer\<close> of it: a
  \<^verbatim>\<open>TypeError\<close> is thrown before the test of line 118, whose early return no encoder
  ever reaches.
\<close>

theorem cyclic_study_metadata_throws:
  "blocksToBlob cyclic_study_encoder = Inl TypeError \<and>
   (\<forall>enc. blocksToBlob enc \<noteq> Inl SerializationError)"
proof
  show "blocksToBlob cyclic_study_encoder = Inl TypeError"
    by code_simp
  show "\<forall>enc. blocksToBlob enc \<noteq> Inl SerializationError"
  proof
    fix enc
    show "blocksToBlob enc \<noteq> Inl SerializationError"
      by (auto simp: blocksToBlob_def not_ArrayBuffer_def
               dest: buffer_of_Inl blobArray_loop_errors blockStarts_loop_errors
               split: sum.splits if_splits)
  qed
qed

text \<open>
  Claim C9 (count mismatch). When the number of sidecar buffers differs from the number
  of data buffers, \<^verbatim>\<open>blocksToBlob\<close> takes the early return of lines 90-93 and yields
  no blob; when the two numbers are equal it never takes that return.
\<close>

theorem count_mismatch_aborts:
  "(length (sidecarBuffers enc) \<noteq> length (dataBuffers enc) \<longrightarrow>
      blocksToBlob enc = Inl ConsistencyError) \<and>
   (length (sidecarBuffers enc) = length (dataBuffers enc) \<longrightarrow>
      blocksToBlob enc \<noteq> Inl ConsistencyError)"
proof (intro conjI impI)
  assume "length (sidecarBuffers enc) \<noteq> length (dataBuffers enc)"
  then show "blocksToBlob enc = Inl ConsistencyError"
    by (simp add: blocksToBlob_def)
next
  assume len: "length (sidecarBuffers enc) = length (dataBuffers enc)"
  show "blocksToBlob enc \<noteq> Inl ConsistencyError"
  proof
    assume "blocksToBlob enc = Inl ConsistencyError"
    with len show False
      by (auto simp: blocksToBlob_def not_ArrayBuffer_def blockStarts_loop_eq
               dest: buffer_of_Inl blobArray_loop_errors split: sum.splits)
  qed
qed

theorem count_mismatch_aborts_witness:
  "length (sidecarBuffers unbalanced_encoder) \<noteq> length (dataBuffers unbalanced_encoder) \<and>
   blocksToBlob unbalanced_encoder = Inl ConsistencyError \<and>
   length (sidecarBuffers two_block_encoder) = length (dataBuffers two_block_encoder) \<and>
   blocksToBlob two_block_encoder \<noteq> Inl ConsistencyError"
  using count_mismatch_aborts [of unbalanced_encoder] count_mismatch_aborts [of two_block_encoder]
  by (simp add: unbalanced_encoder_def two_block_encoder_def)

text \<open>
  Claim C10 (\<^verbatim>\<open>addBlock\<close> is atomic on failure). A call that throws leaves the encoder
  as it was; a call throws when the data, or the sidecar, cannot be serialized; and after
  any call, thrown or not, the two lists have the same length if they had before.
\<close>

theorem addBlock_atomic_on_failure:
  "(\<forall>e. fst (addBlock d metadata ot enc) = Inl e \<longrightarrow> snd (addBlock d metadata ot enc) = enc) \<and>
   (\<forall>v. d = Value v \<and> toJsonString v = None \<longrightarrow>
      addBlock d metadata ot enc = (Inl TypeError, enc)) \<and>
   (\<forall>e raw. addBlock_encoding d ot = Inr (e, raw) \<and>
      toJsonString (JSObject [(str ''encodingMetadata'', encoding_object e),
                              (str ''originalMetadata'', metadata)]) = None \<longrightarrow>
      addBlock d metadata ot enc = (Inl TypeError, enc)) \<and>
   (length (sidecarBuffers enc) = length (dataBuffers enc) \<longrightarrow>
      length (sidecarBuffers (snd (addBlock d metadata ot enc)))
        = length (dataBuffers (snd (addBlock d metadata ot enc))))"
proof (intro conjI allI impI)
  fix e assume "fst (addBlock d metadata ot enc) = Inl e"
  then have "addBlock d metadata ot enc = (Inl e, snd (addBlock d metadata ot enc))"
    by (metis prod.collapse)
  from addBlock_Inl [OF this] show "snd (addBlock d metadata ot enc) = enc" by simp
next
  fix v assume "d = Value v \<and> toJsonString v = None"
  then show "addBlock d metadata ot enc = (Inl TypeError, enc)"
    by (simp add: addBlock_def addBlock_encoding_def objectToUnicodeBuffer_def
          stringToUnicodeBuffer_def buffer_of_def)
next
  fix e raw
  assume "addBlock_encoding d ot = Inr (e, raw) \<and>
      toJsonString (JSObject [(str ''encodingMetadata'', encoding_object e),
                              (str ''originalMetadata'', metadata)]) = None"
  then show "addBlock d metadata ot enc = (Inl TypeError, enc)"
    by (simp add: addBlock_def objectToUnicodeBuffer_def stringToUnicodeBuffer_def buffer_of_def)
next
  assume len: "length (sidecarBuffers enc) = length (dataBuffers enc)"
  obtain r enc' where step: "addBlock d metadata ot enc = (r, enc')"
    by (cases "addBlock d metadata ot enc") auto
  show "length (sidecarBuffers (snd (addBlock d metadata ot enc)))
        = length (dataBuffers (snd (addBlock d metadata ot enc)))"
  proof (cases r)
    case (Inl e)
    with step addBlock_Inl [of d metadata ot enc e enc'] len show ?thesis by simp
  next
    case (Inr u)
    with step addBlock_Inr [of d metadata ot enc enc'] len show ?thesis by auto
  qed
qed

theorem addBlock_atomic_on_failure_witness:
  "fst (addBlock (Value JSCyclic) JSNull JSNull two_block_encoder) = Inl TypeError \<and>
   snd (addBlock (Value JSCyclic) JSNull JSNull two_block_encoder) = two_block_encoder \<and>
   toJsonString JSCyclic = None \<and>
   addBlock (Value JSCyclic) JSNull JSNull two_block_encoder = (Inl TypeError, two_block_encoder) \<and>
   addBlock_encoding (TypedArray uint8_sample) JSNull
     = Inr (\<lparr>originalType = JSNull, bytesPerElement = 1, dataType = ''int'',
             signed_flag = True, byteLength = 3\<rparr>, [1, 2, 3]) \<and>
   toJsonString
     (JSObject [(str ''encodingMetadata'',
                 encoding_object \<lparr>originalType = JSNull, bytesPerElement = 1, dataType = ''int'',
                                  signed_flag = True, byteLength = 3\<rparr>),
                (str ''originalMetadata'', JSCyclic)]) = None \<and>
   addBlock (TypedArray uint8_sample) JSCyclic JSNull two_block_encoder
     = (Inl TypeError, two_block_encoder) \<and>
   length (sidecarBuffers two_block_encoder) = length (dataBuffers two_block_encoder) \<and>
   length (sidecarBuffers (snd (addBlock (TypedArray uint8_sample) unit_mm JSNull two_block_encoder)))
     = length (dataBuffers (snd (addBlock (TypedArray uint8_sample) unit_mm JSNull two_block_encoder)))"
proof -
  have a: "fst (addBlock (Value JSCyclic) JSNull JSNull two_block_encoder) = Inl TypeError"
    by code_simp
  have b: "toJsonString JSCyclic = None"
    by (simp add: toJsonString_def)
  have c: "addBlock_encoding (TypedArray uint8_sample) JSNull
     = Inr (\<lparr>originalType = JSNull, bytesPerElement = 1, dataType = ''int'',
             signed_flag = True, byteLength = 3\<rparr>, [1, 2, 3])"
    by code_simp
  have d: "toJsonString
     (JSObject [(str ''encodingMetadata'',
                 encoding_object \<lparr>originalType = JSNull, bytesPerElement = 1, dataType = ''int'',
                                  signed_flag = True, byteLength = 3\<rparr>),
                (str ''originalMetadata'', JSCyclic)]) = None"
    by code_simp
  have e: "length (sidecarBuffers two_block_encoder) = length (dataBuffers two_block_encoder)"
    by (simp add: two_block_encoder_def)
  from addBlock_atomic_on_failure [of "Value JSCyclic" JSNull JSNull two_block_encoder]
       addBlock_atomic_on_failure [of "TypedArray uint8_sample" JSCyclic JSNull two_block_encoder]
       addBlock_atomic_on_failure [of "TypedArray uint8_sample" unit_mm JSNull two_block_encoder]
       a b c d e
  show ?thesis by blast
qed

end
